theory Spec2Isabelle
  imports Main "HOL-Library.Word"
begin

section \<open>The sample recorder of Profiler.h\<close>

text \<open>
  A shallow embedding of the class \<open>SCGP::Profiler\<close>. The class mutates its fields in
  place; here every member function takes the recorder and returns the updated one.
  Three things the C++ leaves to the machine are made explicit:
  \<^item> reads and writes of \<open>SamplePool[i]\<close> are unchecked in the source; a write outside
    the allocated array, signed overflow and a failed \<open>new\<close> are the values of
    \<open>error\<close>, so every member function returns \<open>error + 'a\<close>;
  \<^item> \<open>std::chrono::steady_clock::now()\<close> and the content of freshly allocated memory
    come from the environment \<open>Env\<close>;
  \<^item> the \<open>std::int64_t\<close> fields are \<open>int\<close>, and each arithmetic operation of the
    source that could leave the 64-bit range is guarded by \<open>int64\<close>.
\<close>

subsection \<open>Data\<close>

datatype error = OutOfBounds | SignedOverflow | BadAlloc

text \<open>\<open>struct Sample\<close> (lines 39-45). \<open>Name\<close> is a \<open>const char*\<close>; the model stores the
  text it points to.\<close>

record Sample =
  Parent :: int
  BeginNanoseconds :: "64 word"
  EndNanoseconds :: "64 word"
  Name :: string

text \<open>The fields of \<open>class Profiler\<close> (lines 62-66). \<open>SamplePool\<close> is the allocated array,
  all of it, so its length is the allocated size. \<open>ClockReads\<close> is not a field of the
  class: it counts the readings of the steady clock taken so far and selects the next
  reading of the environment.\<close>

record Profiler =
  SamplePool :: "Sample list"
  SampleCount :: int
  CurrentSample :: int
  SampleCapacity :: int
  ClockStart :: int
  ClockReads :: nat

text \<open>The environment: the successive readings of \<open>steady_clock::now()\<close> in nanoseconds,
  what an uninitialised slot of a fresh array holds (\<open>new Sample[n]\<close> initialises
  nothing), and the largest array \<open>new\<close> grants.\<close>

record Env =
  steady_clock :: "nat \<Rightarrow> int"
  fresh_memory :: "nat \<Rightarrow> Sample"
  alloc_limit :: int

definition int64 :: "int \<Rightarrow> bool" where
  "int64 x \<longleftrightarrow> - (2 ^ 63) \<le> x \<and> x < 2 ^ 63"

definition INT_MAX :: int where
  "INT_MAX = 2 ^ 31 - 1"

text \<open>\<open>new Sample[n]\<close>: throws for a negative or too large \<open>n\<close>, otherwise an array of
  \<open>n\<close> uninitialised slots.\<close>

definition new_Sample_array :: "Env \<Rightarrow> int \<Rightarrow> error + Sample list" where
  "new_Sample_array e n =
     (if n < 0 \<or> alloc_limit e < n then Inl BadAlloc
      else Inr (map (fresh_memory e) [0..<nat n]))"

text \<open>Whether \<open>SamplePool[i]\<close> lies inside the allocated array.\<close>

definition in_pool :: "Profiler \<Rightarrow> int \<Rightarrow> bool" where
  "in_pool p i \<longleftrightarrow> 0 \<le> i \<and> i < int (length (SamplePool p))"

subsection \<open>The clock\<close>

text \<open>\<open>ElapsedNanoseconds\<close> (lines 118-121): the signed nanosecond count of
  \<open>now() - ClockStart\<close>, returned as \<open>std::uint64_t\<close>. \<open>clock_read\<close> is the effect of
  the call on the environment's clock.\<close>

definition ElapsedNanoseconds :: "Env \<Rightarrow> Profiler \<Rightarrow> 64 word" where
  "ElapsedNanoseconds e p = word_of_int (steady_clock e (ClockReads p) - ClockStart p)"

definition clock_read :: "Profiler \<Rightarrow> Profiler" where
  "clock_read p = p\<lparr>ClockReads := Suc (ClockReads p)\<rparr>"

subsection \<open>Construction\<close>

text \<open>The constructor (lines 71-78); \<open>initialCapacity\<close> is a 32-bit \<open>int\<close>.\<close>

definition Profiler_ctor :: "Env \<Rightarrow> 32 word \<Rightarrow> error + Profiler" where
  "Profiler_ctor e initialCapacity =
     (let capacity = (if sint initialCapacity < 2 then 2 else sint initialCapacity)
      in case new_Sample_array e capacity of
           Inl err \<Rightarrow> Inl err
         | Inr pool \<Rightarrow>
             Inr \<lparr>SamplePool = pool, SampleCount = 0, CurrentSample = - 1,
                  SampleCapacity = capacity, ClockStart = steady_clock e 0,
                  ClockReads = 1\<rparr>)"

subsection \<open>BeginSample\<close>

text \<open>Lines 85-89 of \<open>BeginSample\<close>: the new sample is written into slot \<open>SampleCount\<close>
  (its \<open>EndNanoseconds\<close> keeps what the slot held) and becomes the current one.\<close>

definition BeginSample_open :: "Env \<Rightarrow> string \<Rightarrow> Profiler \<Rightarrow> error + Profiler" where
  "BeginSample_open e name p =
     (if \<not> in_pool p (SampleCount p) then Inl OutOfBounds
      else
        let t = ElapsedNanoseconds e p;
            p1 = clock_read p;
            k = nat (SampleCount p1);
            sample = (SamplePool p1 ! k)
              \<lparr>Parent := CurrentSample p1, BeginNanoseconds := t, Name := name\<rparr>
        in if \<not> int64 (SampleCount p1 + 1) then Inl SignedOverflow
           else Inr (p1\<lparr>SamplePool := (SamplePool p1)[k := sample],
                        CurrentSample := SampleCount p1,
                        SampleCount := SampleCount p1 + 1\<rparr>))"

text \<open>Lines 93-106, the body of the \<open>if\<close>: a new array of twice the capacity, the old
  array copied into its front by \<open>memcpy\<close>, and the marker sample written into slot
  \<open>SampleCount\<close> with both timestamps.\<close>

definition BeginSample_grow :: "Env \<Rightarrow> Profiler \<Rightarrow> error + Profiler" where
  "BeginSample_grow e p =
     (let begin = ElapsedNanoseconds e p;
          p1 = clock_read p;
          new_capacity = SampleCapacity p1 * 2
      in if \<not> int64 new_capacity then Inl SignedOverflow
         else case new_Sample_array e new_capacity of
           Inl err \<Rightarrow> Inl err
         | Inr new_sample_pool \<Rightarrow>
             if SampleCapacity p1 < 0 \<or> int (length (SamplePool p1)) < SampleCapacity p1
             then Inl OutOfBounds
             else
               let n = nat (SampleCapacity p1);
                   p2 = p1\<lparr>SamplePool := take n (SamplePool p1) @ drop n new_sample_pool,
                           SampleCapacity := new_capacity\<rparr>;
                   end = ElapsedNanoseconds e p2;
                   p3 = clock_read p2;
                   k = nat (SampleCount p3)
               in if \<not> in_pool p3 (SampleCount p3) then Inl OutOfBounds
                  else if \<not> int64 (SampleCount p3 + 1) then Inl SignedOverflow
                  else
                    let sample = (SamplePool p3 ! k)
                          \<lparr>Parent := CurrentSample p3, BeginNanoseconds := begin,
                           EndNanoseconds := end,
                           Name := ''SCGP.Profiler.ReallocateSamplePool''\<rparr>
                    in Inr (p3\<lparr>SamplePool := (SamplePool p3)[k := sample],
                                SampleCount := SampleCount p3 + 1\<rparr>))"

text \<open>\<open>BeginSample\<close> (lines 83-108): the condition of line 91 is evaluated on the
  incremented \<open>SampleCount\<close>.\<close>

definition BeginSample :: "Env \<Rightarrow> string \<Rightarrow> Profiler \<Rightarrow> error + Profiler" where
  "BeginSample e name p =
     (case BeginSample_open e name p of
        Inl err \<Rightarrow> Inl err
      | Inr p1 \<Rightarrow>
          if \<not> int64 (SampleCount p1 + 1) then Inl SignedOverflow
          else if SampleCount p1 + 1 \<ge> SampleCapacity p1 then BeginSample_grow e p1
          else Inr p1)"

subsection \<open>EndSample\<close>

text \<open>\<open>EndSample\<close> (lines 110-116).\<close>

definition EndSample :: "Env \<Rightarrow> Profiler \<Rightarrow> error + Profiler" where
  "EndSample e p =
     (let endTicks = ElapsedNanoseconds e p;
          p1 = clock_read p
      in if \<not> in_pool p1 (CurrentSample p1) then Inl OutOfBounds
         else
           let k = nat (CurrentSample p1);
               sample = (SamplePool p1 ! k)\<lparr>EndNanoseconds := endTicks\<rparr>
           in Inr (p1\<lparr>SamplePool := (SamplePool p1)[k := sample],
                       CurrentSample := Parent sample\<rparr>))"

subsection \<open>Export\<close>

text \<open>\<open>FmtString\<close> (lines 203-215) renders a format string with \<open>vsnprintf\<close>; the file
  calls it once, with the format of line 195, whose three \<open>%f\<close> arguments are doubles.
  Double arithmetic and the rendering of a double are outside this embedding, so the
  two conversions that occur are parameters: \<open>micros n\<close> is the \<open>%f\<close> rendering of
  \<open>n / 1000.0\<close> and \<open>millis n\<close> that of \<open>n / (1e+6)\<close>, for a \<open>std::uint64_t\<close> \<open>n\<close>.\<close>

record double_format =
  micros :: "64 word \<Rightarrow> string"
  millis :: "64 word \<Rightarrow> string"

text \<open>\<open>FmtString\<close> on the format of line 195: \<open>ts\<close>, \<open>dur\<close> and \<open>ms\<close> are the nanosecond
  counts that the first, second and fourth argument divide.\<close>

definition FmtString ::
  "double_format \<Rightarrow> 64 word \<Rightarrow> 64 word \<Rightarrow> string \<Rightarrow> 64 word \<Rightarrow> string" where
  \<open>FmtString fmt ts dur name ms =
     ''{ "pid":1, "tid":1, "ts": '' @ micros fmt ts @ '', "dur": '' @ micros fmt dur @
     '', "ph":"X", "name":"'' @ name @ ''", "args":{ "ms":'' @ millis fmt ms @ '' }}''\<close>

text \<open>The arguments of lines 196-199: the differences are taken on \<open>std::uint64_t\<close>, so
  they wrap when \<open>EndNanoseconds\<close> is below \<open>BeginNanoseconds\<close>.\<close>

definition event_of :: "double_format \<Rightarrow> Sample \<Rightarrow> string" where
  "event_of fmt e =
     FmtString fmt (BeginNanoseconds e) (EndNanoseconds e - BeginNanoseconds e) (Name e)
       (EndNanoseconds e - BeginNanoseconds e)"

text \<open>The loop of lines 192-200. The counter \<open>i\<close> is a 32-bit \<open>int\<close> compared with the
  64-bit \<open>SampleCount\<close>; \<open>i++\<close> beyond \<open>INT_MAX\<close> is signed overflow.\<close>

function ToChromeTracingEvents_loop ::
  "double_format \<Rightarrow> Profiler \<Rightarrow> int \<Rightarrow> string list \<Rightarrow> error + string list" where
  "ToChromeTracingEvents_loop fmt profiler i appendTo =
     (if i < SampleCount profiler then
        if \<not> in_pool profiler i then Inl OutOfBounds
        else
          let e = SamplePool profiler ! nat i;
              appendTo' = appendTo @ [event_of fmt e]
          in if INT_MAX < i + 1 then Inl SignedOverflow
             else ToChromeTracingEvents_loop fmt profiler (i + 1) appendTo'
      else Inr appendTo)"
  by pat_completeness auto
termination
  by (relation "measure (\<lambda>(fmt, profiler, i, appendTo). nat (SampleCount profiler - i))") auto

declare ToChromeTracingEvents_loop.simps [simp del]

text \<open>The append variant (lines 190-201) and the variant returning a fresh vector
  (lines 180-185).\<close>

definition ToChromeTracingEvents_append ::
  "double_format \<Rightarrow> Profiler \<Rightarrow> string list \<Rightarrow> error + string list" where
  "ToChromeTracingEvents_append fmt profiler appendTo =
     ToChromeTracingEvents_loop fmt profiler 0 appendTo"

definition ToChromeTracingEvents :: "double_format \<Rightarrow> Profiler \<Rightarrow> error + string list" where
  "ToChromeTracingEvents fmt profiler = ToChromeTracingEvents_append fmt profiler []"

subsection \<open>Sequences of calls\<close>

datatype call = Begin string | End

fun step :: "Env \<Rightarrow> call \<Rightarrow> Profiler \<Rightarrow> error + Profiler" where
  "step e (Begin name) p = BeginSample e name p"
| "step e End p = EndSample e p"

fun run :: "Env \<Rightarrow> call list \<Rightarrow> Profiler \<Rightarrow> error + Profiler" where
  "run e [] p = Inr p"
| "run e (c # cs) p = (case step e c p of Inl err \<Rightarrow> Inl err | Inr p' \<Rightarrow> run e cs p')"

text \<open>A sequence of calls is well nested when every \<open>EndSample\<close> closes an earlier
  \<open>BeginSample\<close> and none stays open; \<open>d\<close> is the number of samples open at the start.\<close>

fun well_nested :: "nat \<Rightarrow> call list \<Rightarrow> bool" where
  "well_nested d [] = (d = 0)"
| "well_nested d (Begin name # cs) = well_nested (Suc d) cs"
| "well_nested d (End # cs) = (0 < d \<and> well_nested (d - 1) cs)"

text \<open>The number of \<open>BeginSample\<close> calls in a sequence.\<close>

fun begins :: "call list \<Rightarrow> nat" where
  "begins [] = 0"
| "begins (Begin name # cs) = Suc (begins cs)"
| "begins (End # cs) = begins cs"

subsection \<open>Parent chains and nesting depth\<close>

text \<open>Following \<open>Parent\<close> links from slot \<open>i\<close>: the number of links followed until a
  sample with \<open>Parent = -1\<close> is reached, \<open>None\<close> when the chain leaves the array or is
  longer than the fuel.\<close>

fun steps_to_top :: "nat \<Rightarrow> Sample list \<Rightarrow> int \<Rightarrow> nat option" where
  "steps_to_top 0 pool i = None"
| "steps_to_top (Suc fuel) pool i =
     (if i < 0 \<or> int (length pool) \<le> i then None
      else if Parent (pool ! nat i) = - 1 then Some 0
      else map_option Suc (steps_to_top fuel pool (Parent (pool ! nat i))))"

text \<open>The same calls with a log beside the recorder. \<open>d\<close> counts the samples that are
  open: it goes up with every \<open>BeginSample\<close> call and down with every \<open>EndSample\<close> call.
  The log holds, for every slot written so far, its nesting depth at creation, which
  is the value of \<open>d\<close> when the call that wrote the slot began, and whether the slot is
  a growth marker, the second slot that a \<open>BeginSample\<close> call writes. A marker is
  logged at the depth of the sample that triggered it.\<close>

type_synonym creation = "nat \<times> bool"

fun step_logged ::
  "Env \<Rightarrow> call \<Rightarrow> Profiler \<times> nat \<times> creation list \<Rightarrow>
   error + Profiler \<times> nat \<times> creation list" where
  "step_logged e (Begin name) (p, d, log) =
     (case BeginSample e name p of
        Inl err \<Rightarrow> Inl err
      | Inr p' \<Rightarrow>
          Inr (p', Suc d,
               log @ (if SampleCount p' = SampleCount p + 2 then [(d, False), (d, True)]
                      else [(d, False)])))"
| "step_logged e End (p, d, log) =
     (case EndSample e p of
        Inl err \<Rightarrow> Inl err
      | Inr p' \<Rightarrow> Inr (p', d - 1, log))"

fun run_logged ::
  "Env \<Rightarrow> call list \<Rightarrow> Profiler \<times> nat \<times> creation list \<Rightarrow>
   error + Profiler \<times> nat \<times> creation list" where
  "run_logged e [] s = Inr s"
| "run_logged e (c # cs) s =
     (case step_logged e c s of Inl err \<Rightarrow> Inl err | Inr s' \<Rightarrow> run_logged e cs s')"

text \<open>The log of a whole session on the recorder \<open>p0\<close>.\<close>

definition creation_log :: "Env \<Rightarrow> call list \<Rightarrow> Profiler \<Rightarrow> creation list" where
  "creation_log e calls p0 =
     (case run_logged e calls (p0, 0, []) of Inl err \<Rightarrow> [] | Inr s \<Rightarrow> snd (snd s))"

text \<open>The number of parent links that the code gives a slot: its depth at creation,
  and one more for a marker, whose parent is the sample that triggered it.\<close>

definition links :: "creation \<Rightarrow> nat" where
  "links c = (if snd c then Suc (fst c) else fst c)"

subsection \<open>Invariants\<close>

text \<open>The pool invariant: the capacity field is the size of the array, and at least two
  slots are free.\<close>

definition pool_inv :: "Profiler \<Rightarrow> bool" where
  "pool_inv p \<longleftrightarrow>
     0 \<le> SampleCount p \<and> SampleCount p + 2 \<le> SampleCapacity p \<and>
     SampleCapacity p = int (length (SamplePool p))"

text \<open>The cursor invariant: \<open>CurrentSample\<close> is the sentinel or the index of a recorded
  sample.\<close>

definition cursor_inv :: "Profiler \<Rightarrow> bool" where
  "cursor_inv p \<longleftrightarrow>
     - 1 \<le> CurrentSample p \<and> CurrentSample p < SampleCount p \<and>
     SampleCount p \<le> int (length (SamplePool p))"

text \<open>The chain invariant, for a list \<open>ds\<close> that gives every recorded slot a number of
  links: a recorded sample's parent is the sentinel or an earlier slot, its number is 0
  in the first case and one more than its parent's in the second, and the number of
  open samples is one more than the number of the current sample.\<close>

definition chain_inv :: "Profiler \<Rightarrow> nat \<Rightarrow> nat list \<Rightarrow> bool" where
  "chain_inv p d ds \<longleftrightarrow>
     length ds = nat (SampleCount p) \<and>
     (\<forall>i < length ds.
        - 1 \<le> Parent (SamplePool p ! i) \<and> Parent (SamplePool p ! i) < int i \<and>
        ds ! i = (if Parent (SamplePool p ! i) = - 1 then 0
                  else Suc (ds ! nat (Parent (SamplePool p ! i))))) \<and>
     d = (if CurrentSample p = - 1 then 0 else Suc (ds ! nat (CurrentSample p)))"

text \<open>The three together, for a recorder with its log.\<close>

definition session_inv :: "Profiler \<times> nat \<times> creation list \<Rightarrow> bool" where
  "session_inv s \<longleftrightarrow>
     pool_inv (fst s) \<and> cursor_inv (fst s) \<and>
     chain_inv (fst s) (fst (snd s)) (map links (snd (snd s)))"

subsection \<open>A recorded session\<close>

text \<open>A concrete environment and the states of a small session, used to run the
  definitions: a clock that advances 1000 ns per reading, fresh memory filled with a
  recognisable pattern, and a recorder constructed with capacity 2.\<close>

definition demo_junk :: Sample where
  "demo_junk = \<lparr>Parent = 7, BeginNanoseconds = 11, EndNanoseconds = 13, Name = ''?''\<rparr>"

definition demo_env :: Env where
  "demo_env = \<lparr>steady_clock = (\<lambda>k. 1000 * int k), fresh_memory = (\<lambda>k. demo_junk),
     alloc_limit = 64\<rparr>"

text \<open>After \<open>Profiler(2)\<close>.\<close>

definition demo_fresh :: Profiler where
  "demo_fresh = \<lparr>SamplePool = [demo_junk, demo_junk], SampleCount = 0, CurrentSample = - 1,
     SampleCapacity = 2, ClockStart = 0, ClockReads = 1\<rparr>"

text \<open>After \<open>BeginSample("A")\<close>, which grows the pool from 2 to 4 slots.\<close>

definition demo_A :: Profiler where
  "demo_A = \<lparr>SamplePool =
       [\<lparr>Parent = - 1, BeginNanoseconds = 1000, EndNanoseconds = 13, Name = ''A''\<rparr>,
        \<lparr>Parent = 0, BeginNanoseconds = 2000, EndNanoseconds = 3000,
          Name = ''SCGP.Profiler.ReallocateSamplePool''\<rparr>,
        demo_junk, demo_junk],
     SampleCount = 2, CurrentSample = 0, SampleCapacity = 4, ClockStart = 0, ClockReads = 4\<rparr>"

text \<open>Inside \<open>BeginSample("B")\<close>, after line 89 and before the growth block.\<close>

definition demo_A_B_open :: Profiler where
  "demo_A_B_open = \<lparr>SamplePool =
       [\<lparr>Parent = - 1, BeginNanoseconds = 1000, EndNanoseconds = 13, Name = ''A''\<rparr>,
        \<lparr>Parent = 0, BeginNanoseconds = 2000, EndNanoseconds = 3000,
          Name = ''SCGP.Profiler.ReallocateSamplePool''\<rparr>,
        \<lparr>Parent = 0, BeginNanoseconds = 4000, EndNanoseconds = 13, Name = ''B''\<rparr>,
        demo_junk],
     SampleCount = 3, CurrentSample = 2, SampleCapacity = 4, ClockStart = 0, ClockReads = 5\<rparr>"

text \<open>After \<open>BeginSample("B")\<close>, which grows the pool again, from 4 to 8 slots.\<close>

definition demo_AB :: Profiler where
  "demo_AB = \<lparr>SamplePool =
       [\<lparr>Parent = - 1, BeginNanoseconds = 1000, EndNanoseconds = 13, Name = ''A''\<rparr>,
        \<lparr>Parent = 0, BeginNanoseconds = 2000, EndNanoseconds = 3000,
          Name = ''SCGP.Profiler.ReallocateSamplePool''\<rparr>,
        \<lparr>Parent = 0, BeginNanoseconds = 4000, EndNanoseconds = 13, Name = ''B''\<rparr>,
        \<lparr>Parent = 2, BeginNanoseconds = 5000, EndNanoseconds = 6000,
          Name = ''SCGP.Profiler.ReallocateSamplePool''\<rparr>,
        demo_junk, demo_junk, demo_junk, demo_junk],
     SampleCount = 4, CurrentSample = 2, SampleCapacity = 8, ClockStart = 0, ClockReads = 7\<rparr>"

text \<open>After the first \<open>EndSample()\<close>, which closes "B".\<close>

definition demo_ABe :: Profiler where
  "demo_ABe = \<lparr>SamplePool =
       [\<lparr>Parent = - 1, BeginNanoseconds = 1000, EndNanoseconds = 13, Name = ''A''\<rparr>,
        \<lparr>Parent = 0, BeginNanoseconds = 2000, EndNanoseconds = 3000,
          Name = ''SCGP.Profiler.ReallocateSamplePool''\<rparr>,
        \<lparr>Parent = 0, BeginNanoseconds = 4000, EndNanoseconds = 7000, Name = ''B''\<rparr>,
        \<lparr>Parent = 2, BeginNanoseconds = 5000, EndNanoseconds = 6000,
          Name = ''SCGP.Profiler.ReallocateSamplePool''\<rparr>,
        demo_junk, demo_junk, demo_junk, demo_junk],
     SampleCount = 4, CurrentSample = 0, SampleCapacity = 8, ClockStart = 0, ClockReads = 8\<rparr>"

text \<open>After the second \<open>EndSample()\<close>, which closes "A".\<close>

definition demo_done :: Profiler where
  "demo_done = \<lparr>SamplePool =
       [\<lparr>Parent = - 1, BeginNanoseconds = 1000, EndNanoseconds = 8000, Name = ''A''\<rparr>,
        \<lparr>Parent = 0, BeginNanoseconds = 2000, EndNanoseconds = 3000,
          Name = ''SCGP.Profiler.ReallocateSamplePool''\<rparr>,
        \<lparr>Parent = 0, BeginNanoseconds = 4000, EndNanoseconds = 7000, Name = ''B''\<rparr>,
        \<lparr>Parent = 2, BeginNanoseconds = 5000, EndNanoseconds = 6000,
          Name = ''SCGP.Profiler.ReallocateSamplePool''\<rparr>,
        demo_junk, demo_junk, demo_junk, demo_junk],
     SampleCount = 4, CurrentSample = - 1, SampleCapacity = 8, ClockStart = 0, ClockReads = 9\<rparr>"

text \<open>The calls of the session.\<close>

definition demo_calls :: "call list" where
  "demo_calls = [Begin ''A'', Begin ''B'', End, End]"

text \<open>A rendering that prints the division instead of carrying it out, with the
  nanosecond count in decimal.\<close>

function dec :: "nat \<Rightarrow> string" where
  "dec n = (if n < 10 then [''0123456789'' ! n]
            else dec (n div 10) @ [''0123456789'' ! (n mod 10)])"
  by pat_completeness auto
termination
  by (relation "measure id") auto

declare dec.simps [simp del]

definition demo_fmt :: double_format where
  "demo_fmt = \<lparr>micros = (\<lambda>n. dec (unat n) @ ''/1000.0''),
     millis = (\<lambda>n. dec (unat n) @ ''/1e+6'')\<rparr>"

text \<open>A recorder that holds \<open>2^31\<close> closed top-level samples in a pool of \<open>2^32\<close>
  slots.\<close>

definition demo_top :: Sample where
  "demo_top = \<lparr>Parent = - 1, BeginNanoseconds = 1000, EndNanoseconds = 2000, Name = ''A''\<rparr>"

definition demo_huge :: Profiler where
  "demo_huge = \<lparr>SamplePool = replicate (2 ^ 32) demo_top, SampleCount = 2 ^ 31,
     CurrentSample = - 1, SampleCapacity = 2 ^ 32, ClockStart = 0, ClockReads = 1\<rparr>"

section \<open>What one call does\<close>

lemma Sample_update_all:
  "s\<lparr>Parent := a, BeginNanoseconds := b, EndNanoseconds := c, Name := d\<rparr> =
   \<lparr>Parent = a, BeginNanoseconds = b, EndNanoseconds = c, Name = d\<rparr>"
  by (cases s) simp

lemma BeginSample_open_Inr:
  assumes "BeginSample_open e name p = Inr p1"
  shows "0 \<le> SampleCount p" and "SampleCount p < int (length (SamplePool p))"
    and "SamplePool p1 = (SamplePool p)[nat (SampleCount p) :=
           (SamplePool p ! nat (SampleCount p))
             \<lparr>Parent := CurrentSample p, BeginNanoseconds := ElapsedNanoseconds e p,
              Name := name\<rparr>]"
    and "SampleCount p1 = SampleCount p + 1"
    and "CurrentSample p1 = SampleCount p"
    and "SampleCapacity p1 = SampleCapacity p"
    and "ClockStart p1 = ClockStart p"
    and "ClockReads p1 = Suc (ClockReads p)"
  using assms
  by (auto simp: BeginSample_open_def in_pool_def clock_read_def Let_def split: if_splits)

lemma BeginSample_grow_Inr:
  assumes "BeginSample_grow e p = Inr p'"
  shows "0 \<le> SampleCount p" and "SampleCount p < 2 * SampleCapacity p"
    and "0 \<le> SampleCapacity p" and "SampleCapacity p \<le> int (length (SamplePool p))"
    and "2 * SampleCapacity p \<le> alloc_limit e"
    and "SamplePool p' =
          (take (nat (SampleCapacity p)) (SamplePool p) @
           drop (nat (SampleCapacity p)) (map (fresh_memory e) [0..<nat (2 * SampleCapacity p)]))
          [nat (SampleCount p) :=
             \<lparr>Parent = CurrentSample p, BeginNanoseconds = ElapsedNanoseconds e p,
              EndNanoseconds = ElapsedNanoseconds e (clock_read p),
              Name = ''SCGP.Profiler.ReallocateSamplePool''\<rparr>]"
    and "SampleCount p' = SampleCount p + 1"
    and "CurrentSample p' = CurrentSample p"
    and "SampleCapacity p' = 2 * SampleCapacity p"
    and "ClockStart p' = ClockStart p"
    and "ClockReads p' = Suc (Suc (ClockReads p))"
  using assms
  by (auto simp: BeginSample_grow_def new_Sample_array_def in_pool_def clock_read_def
      Let_def Sample_update_all mult.commute ElapsedNanoseconds_def split: if_splits sum.splits)

lemma BeginSample_grow_length:
  assumes "BeginSample_grow e p = Inr p'"
  shows "int (length (SamplePool p')) = 2 * SampleCapacity p"
  using BeginSample_grow_Inr(3,4) [OF assms]
  by (simp add: BeginSample_grow_Inr(6) [OF assms])

lemma BeginSample_cases:
  assumes "BeginSample e name p = Inr p'"
  obtains (plain) "BeginSample_open e name p = Inr p'" "SampleCount p + 2 < SampleCapacity p"
  | (grown) p1 where "BeginSample_open e name p = Inr p1" "BeginSample_grow e p1 = Inr p'"
      "SampleCapacity p \<le> SampleCount p + 2"
proof (cases "BeginSample_open e name p")
  case (Inl err)
  with assms show ?thesis by (simp add: BeginSample_def)
next
  case (Inr p1)
  note c = BeginSample_open_Inr(4,6) [OF Inr]
  show ?thesis
  proof (cases "SampleCapacity p \<le> SampleCount p + 2")
    case True
    with assms Inr c have "BeginSample_grow e p1 = Inr p'"
      by (simp add: BeginSample_def split: if_splits)
    from Inr this True show ?thesis by (rule grown)
  next
    case False
    with assms Inr c have "p' = p1"
      by (simp add: BeginSample_def split: if_splits)
    with Inr False show ?thesis by (auto intro: plain)
  qed
qed

lemma ElapsedNanoseconds_cong:
  "ClockReads p = ClockReads q \<Longrightarrow> ClockStart p = ClockStart q \<Longrightarrow>
   ElapsedNanoseconds e p = ElapsedNanoseconds e q"
  by (simp add: ElapsedNanoseconds_def)

lemma clock_read_simps [simp]:
  "ClockReads (clock_read p) = Suc (ClockReads p)"
  "ClockStart (clock_read p) = ClockStart p"
  "SamplePool (clock_read p) = SamplePool p"
  "SampleCount (clock_read p) = SampleCount p"
  "CurrentSample (clock_read p) = CurrentSample p"
  "SampleCapacity (clock_read p) = SampleCapacity p"
  by (simp_all add: clock_read_def)

text \<open>The slots of a grown recorder, read off the two halves of the call: the marker
  in slot \<open>SampleCount + 1\<close>, and the slots up to \<open>SampleCount\<close>, which the copy keeps.\<close>

lemma grown_marker:
  assumes o: "BeginSample_open e name p = Inr p1" and g: "BeginSample_grow e p1 = Inr p'"
  shows "SamplePool p' ! nat (SampleCount p + 1) =
           \<lparr>Parent = SampleCount p,
            BeginNanoseconds = ElapsedNanoseconds e (clock_read p),
            EndNanoseconds = ElapsedNanoseconds e (clock_read (clock_read p)),
            Name = ''SCGP.Profiler.ReallocateSamplePool''\<rparr>"
proof -
  note o' = BeginSample_open_Inr [OF o] and g' = BeginSample_grow_Inr [OF g]
  have len: "int (length (SamplePool p')) = 2 * SampleCapacity p1"
    by (rule BeginSample_grow_length [OF g])
  have t1: "ElapsedNanoseconds e p1 = ElapsedNanoseconds e (clock_read p)"
    by (rule ElapsedNanoseconds_cong) (simp_all add: o')
  have t2: "ElapsedNanoseconds e (clock_read p1) = ElapsedNanoseconds e (clock_read (clock_read p))"
    by (rule ElapsedNanoseconds_cong) (simp_all add: o')
  have "nat (SampleCount p1) < length (SamplePool p')"
    using g'(1,2) len by linarith
  then have "SamplePool p' ! nat (SampleCount p1) =
      \<lparr>Parent = CurrentSample p1, BeginNanoseconds = ElapsedNanoseconds e p1,
       EndNanoseconds = ElapsedNanoseconds e (clock_read p1),
       Name = ''SCGP.Profiler.ReallocateSamplePool''\<rparr>"
    unfolding g'(6) by simp
  then show ?thesis by (simp add: o'(4,5) t1 t2)
qed

lemma grown_kept:
  assumes o: "BeginSample_open e name p = Inr p1" and g: "BeginSample_grow e p1 = Inr p'"
    and i: "int i \<le> SampleCount p" and c: "SampleCount p < SampleCapacity p"
  shows "SamplePool p' ! i = SamplePool p1 ! i"
proof -
  note o' = BeginSample_open_Inr [OF o] and g' = BeginSample_grow_Inr [OF g]
  have "i \<noteq> nat (SampleCount p1)" using i o'(1,4) by linarith
  moreover have "i < nat (SampleCapacity p1)" using i c o'(1,6) by linarith
  moreover have "i < length (SamplePool p1)" using calculation(2) g'(4) by linarith
  ultimately show ?thesis unfolding g'(6) by (simp add: nth_append)
qed

lemma Profiler_ctor_Inr:
  assumes "Profiler_ctor e initialCapacity = Inr p"
  shows "SampleCount p = 0" and "CurrentSample p = - 1"
    and "SampleCapacity p = max 2 (sint initialCapacity)"
    and "int (length (SamplePool p)) = SampleCapacity p"
  using assms
  by (auto simp: Profiler_ctor_def new_Sample_array_def Let_def split: if_splits)

lemma EndSample_Inr:
  assumes "EndSample e p = Inr p'"
  shows "0 \<le> CurrentSample p" and "CurrentSample p < int (length (SamplePool p))"
    and "SamplePool p' = (SamplePool p)[nat (CurrentSample p) :=
           (SamplePool p ! nat (CurrentSample p))\<lparr>EndNanoseconds := ElapsedNanoseconds e p\<rparr>]"
    and "SampleCount p' = SampleCount p"
    and "CurrentSample p' = Parent (SamplePool p ! nat (CurrentSample p))"
    and "SampleCapacity p' = SampleCapacity p"
    and "ClockStart p' = ClockStart p"
    and "ClockReads p' = Suc (ClockReads p)"
  using assms
  by (auto simp: EndSample_def in_pool_def clock_read_def Let_def split: if_splits)

lemma pool_inv_ctor: "Profiler_ctor e initialCapacity = Inr p \<Longrightarrow> pool_inv p"
  by (simp add: pool_inv_def Profiler_ctor_Inr)

lemma pool_inv_BeginSample:
  assumes "pool_inv p" and "BeginSample e name p = Inr p'"
  shows "pool_inv p'"
  using assms(2)
proof (cases rule: BeginSample_cases)
  case plain
  note o = BeginSample_open_Inr [OF plain(1)]
  from assms(1) plain(2) show ?thesis by (simp add: pool_inv_def o)
next
  case (grown p1)
  note o = BeginSample_open_Inr [OF grown(1)] and g = BeginSample_grow_Inr [OF grown(2)]
  from assms(1) show ?thesis
    by (simp add: pool_inv_def g(7,9) o(4,6) BeginSample_grow_length [OF grown(2)])
qed

lemma pool_inv_EndSample:
  assumes "pool_inv p" and "EndSample e p = Inr p'"
  shows "pool_inv p'"
  using assms(1) by (simp add: pool_inv_def EndSample_Inr [OF assms(2)])

lemma BeginSample_open_in_bounds:
  "0 \<le> SampleCount p \<Longrightarrow> SampleCount p < int (length (SamplePool p)) \<Longrightarrow>
   BeginSample_open e name p \<noteq> Inl OutOfBounds"
  by (simp add: BeginSample_open_def in_pool_def Let_def)

lemma BeginSample_grow_in_bounds:
  assumes "SampleCapacity p = int (length (SamplePool p))"
    and "0 \<le> SampleCount p" and "SampleCount p < 2 * SampleCapacity p"
  shows "BeginSample_grow e p \<noteq> Inl OutOfBounds"
proof (cases "new_Sample_array e (SampleCapacity p * 2)")
  case (Inl err)
  then have "err = BadAlloc"
    by (simp add: new_Sample_array_def split: if_splits)
  with Inl show ?thesis
    by (simp add: BeginSample_grow_def Let_def)
next
  case (Inr pool)
  then have "length pool = nat (SampleCapacity p * 2)"
    by (auto simp: new_Sample_array_def split: if_splits)
  with Inr assms show ?thesis
    by (simp add: BeginSample_grow_def Let_def in_pool_def)
qed

lemma pool_inv_in_bounds:
  assumes "pool_inv p"
  shows "BeginSample e name p \<noteq> Inl OutOfBounds"
proof (cases "BeginSample_open e name p")
  case (Inl err)
  moreover from assms have "BeginSample_open e name p \<noteq> Inl OutOfBounds"
    by (intro BeginSample_open_in_bounds) (simp_all add: pool_inv_def)
  ultimately show ?thesis by (auto simp: BeginSample_def)
next
  case (Inr p1)
  note o = BeginSample_open_Inr [OF Inr]
  from assms have "BeginSample_grow e p1 \<noteq> Inl OutOfBounds"
    by (intro BeginSample_grow_in_bounds) (simp_all add: pool_inv_def o)
  with Inr show ?thesis by (simp add: BeginSample_def)
qed

section \<open>The recorded session, evaluated\<close>

lemmas demo_defs = demo_env_def demo_junk_def demo_fresh_def demo_A_def demo_A_B_open_def
  demo_AB_def demo_ABe_def demo_done_def

lemmas call_defs = BeginSample_def BeginSample_open_def BeginSample_grow_def EndSample_def
  new_Sample_array_def in_pool_def int64_def clock_read_def ElapsedNanoseconds_def Let_def

lemma demo_ctor: "Profiler_ctor demo_env 2 = Inr demo_fresh"
  by (simp add: Profiler_ctor_def new_Sample_array_def demo_defs upt_rec)

lemma demo_begin_A: "BeginSample demo_env ''A'' demo_fresh = Inr demo_A"
  by (simp add: BeginSample_def BeginSample_open_def BeginSample_grow_def new_Sample_array_def
      in_pool_def int64_def clock_read_def ElapsedNanoseconds_def demo_defs upt_rec Let_def)

lemma demo_begin_B: "BeginSample demo_env ''B'' demo_A = Inr demo_AB"
  by (simp add: call_defs demo_defs upt_rec)

lemma demo_end_B: "EndSample demo_env demo_AB = Inr demo_ABe"
  by (simp add: call_defs demo_defs)

lemma demo_end_A: "EndSample demo_env demo_ABe = Inr demo_done"
  by (simp add: call_defs demo_defs)

lemma demo_run: "run demo_env [Begin ''A'', Begin ''B'', End, End] demo_fresh = Inr demo_done"
  by (simp add: demo_begin_A demo_begin_B demo_end_B demo_end_A)

lemma demo_run_calls: "run demo_env demo_calls demo_fresh = Inr demo_done"
  unfolding demo_calls_def by (rule demo_run)

lemma demo_steps:
  "steps_to_top 4 (SamplePool demo_done) 1 = Some 1"
  "steps_to_top 4 (SamplePool demo_done) 2 = Some 1"
  "steps_to_top 4 (SamplePool demo_done) 3 = Some 2"
  by (simp_all add: demo_defs eval_nat_numeral)

lemma demo_run_logged:
  "run_logged demo_env demo_calls (demo_fresh, 0, []) =
     Inr (demo_done, 0, [(0, False), (0, True), (1, False), (1, True)])"
proof -
  have "SampleCount demo_fresh = 0" "SampleCount demo_A = 2" "SampleCount demo_AB = 4"
    by (simp_all add: demo_defs)
  then show ?thesis
    by (simp add: demo_calls_def demo_begin_A demo_begin_B demo_end_B demo_end_A)
qed

lemma demo_creation_log:
  "creation_log demo_env demo_calls demo_fresh = [(0, False), (0, True), (1, False), (1, True)]"
  by (simp add: creation_log_def demo_run_logged)

lemma demo_open_B: "BeginSample_open demo_env ''B'' demo_A = Inr demo_A_B_open"
  by (simp add: call_defs demo_defs)

lemma demo_grow_B: "BeginSample_grow demo_env demo_A_B_open = Inr demo_AB"
  by (simp add: call_defs demo_defs upt_rec)

section \<open>The growth marker's parent\<close>

text \<open>
  C1. The claim: when a \<open>BeginSample\<close> call grows the pool, the marker sample named
  \<open>SCGP.Profiler.ReallocateSamplePool\<close> has as parent the value \<open>CurrentSample\<close> held
  when the triggering sample was opened, so that it is a sibling of the triggering sample.

  The code assigns \<open>CurrentSample = SampleCount++\<close> on line 89, before the growth block
  reads \<open>CurrentSample\<close> on line 103. On the recorder of capacity 2 the first
  \<open>BeginSample("A")\<close> grows the pool: \<open>CurrentSample\<close> was \<open>-1\<close> when "A" was opened,
  "A" in slot 0 has parent \<open>-1\<close>, and the marker in slot 1 has parent 0.
\<close>

theorem growth_marker_parent_counterexample:
  "BeginSample demo_env ''A'' demo_fresh = Inr demo_A \<and>
   Name (SamplePool demo_A ! 1) = ''SCGP.Profiler.ReallocateSamplePool'' \<and>
   CurrentSample demo_fresh = - 1 \<and>
   Parent (SamplePool demo_A ! 0) = - 1 \<and>
   Parent (SamplePool demo_A ! 1) = 0 \<and>
   Parent (SamplePool demo_A ! 1) \<noteq> CurrentSample demo_fresh"
  by (simp add: BeginSample_def BeginSample_open_def BeginSample_grow_def new_Sample_array_def
      in_pool_def int64_def clock_read_def ElapsedNanoseconds_def demo_defs upt_rec Let_def)

text \<open>
  C1, as the code has it: when a \<open>BeginSample\<close> call grows the pool (line 91 holds for
  the incremented count), the marker sample, in the slot after the triggering sample,
  has the index of the triggering sample as its parent, which is also the new
  \<open>CurrentSample\<close>: the marker is recorded as a child of the sample being opened.
\<close>

theorem growth_marker_parent:
  assumes "BeginSample e name p = Inr p'" and "SampleCapacity p \<le> SampleCount p + 2"
  shows "Name (SamplePool p' ! nat (SampleCount p + 1)) = ''SCGP.Profiler.ReallocateSamplePool'' \<and>
         Parent (SamplePool p' ! nat (SampleCount p + 1)) = SampleCount p \<and>
         CurrentSample p' = SampleCount p"
  using assms(1)
proof (cases rule: BeginSample_cases)
  case plain
  with assms(2) show ?thesis by simp
next
  case (grown p1)
  show ?thesis
    by (simp add: grown_marker [OF grown(1,2)] BeginSample_grow_Inr(8) [OF grown(2)]
        BeginSample_open_Inr(5) [OF grown(1)])
qed

theorem growth_marker_parent_witness:
  "BeginSample demo_env ''A'' demo_fresh = Inr demo_A \<and>
   SampleCapacity demo_fresh \<le> SampleCount demo_fresh + 2 \<and>
   Name (SamplePool demo_A ! nat (SampleCount demo_fresh + 1)) =
     ''SCGP.Profiler.ReallocateSamplePool'' \<and>
   Parent (SamplePool demo_A ! nat (SampleCount demo_fresh + 1)) = SampleCount demo_fresh \<and>
   CurrentSample demo_A = SampleCount demo_fresh"
proof -
  have b: "BeginSample demo_env ''A'' demo_fresh = Inr demo_A"
    by (rule demo_begin_A)
  have c: "SampleCapacity demo_fresh \<le> SampleCount demo_fresh + 2"
    by (simp add: demo_fresh_def)
  from growth_marker_parent [OF b c] b c show ?thesis by simp
qed

section \<open>The growth policy\<close>

text \<open>
  C4. A \<open>BeginSample\<close> call that returns grows the pool exactly when, after the new
  sample is appended, fewer than two slots are free, that is when
  \<open>SampleCount + 1 \<ge> SampleCapacity\<close> holds for the incremented count (line 91).
  Growth doubles the capacity (the field and the array) and appends exactly one marker
  sample after the new one, so the count goes up by 2; without growth the capacity and
  the array stay and the count goes up by 1.
\<close>

theorem growth_policy:
  assumes "BeginSample e name p = Inr p'"
  shows "(SampleCapacity p' \<noteq> SampleCapacity p \<longleftrightarrow> SampleCapacity p \<le> (SampleCount p + 1) + 1) \<and>
         (if SampleCapacity p \<le> (SampleCount p + 1) + 1
          then SampleCapacity p' = 2 * SampleCapacity p \<and>
               int (length (SamplePool p')) = 2 * SampleCapacity p \<and>
               SampleCount p' = SampleCount p + 2 \<and>
               Name (SamplePool p' ! nat (SampleCount p + 1)) =
                 ''SCGP.Profiler.ReallocateSamplePool''
          else SampleCapacity p' = SampleCapacity p \<and>
               length (SamplePool p') = length (SamplePool p) \<and>
               SampleCount p' = SampleCount p + 1)"
  using assms
proof (cases rule: BeginSample_cases)
  case plain
  note o = BeginSample_open_Inr [OF plain(1)]
  from plain(2) show ?thesis by (simp add: o)
next
  case (grown p1)
  note o = BeginSample_open_Inr [OF grown(1)] and g = BeginSample_grow_Inr [OF grown(2)]
  have "0 < SampleCapacity p" using g(1,2) o(4,6) by linarith
  with grown(3) show ?thesis
    by (simp add: g(7,9) o(4,6) BeginSample_grow_length [OF grown(2)]
        grown_marker [OF grown(1,2)])
qed

theorem growth_policy_witness:
  "BeginSample demo_env ''A'' demo_fresh = Inr demo_A \<and>
   SampleCapacity demo_fresh \<le> (SampleCount demo_fresh + 1) + 1 \<and>
   SampleCapacity demo_A \<noteq> SampleCapacity demo_fresh \<and>
   SampleCapacity demo_A = 2 * SampleCapacity demo_fresh \<and>
   int (length (SamplePool demo_A)) = 2 * SampleCapacity demo_fresh \<and>
   SampleCount demo_A = SampleCount demo_fresh + 2 \<and>
   Name (SamplePool demo_A ! nat (SampleCount demo_fresh + 1)) =
     ''SCGP.Profiler.ReallocateSamplePool''"
proof -
  have c: "SampleCapacity demo_fresh \<le> (SampleCount demo_fresh + 1) + 1"
    by (simp add: demo_fresh_def)
  from growth_policy [OF demo_begin_A] c demo_begin_A show ?thesis by simp
qed

section \<open>Growth keeps the recorded samples\<close>

text \<open>
  C5. In a recorder that satisfies the pool invariant, a \<open>BeginSample\<close> call that grows
  the pool leaves every sample recorded before the call as it was, field by field, in
  the same slot; the call adds the triggering sample in slot \<open>SampleCount\<close> and one
  marker sample in the slot after it, and nothing else: the count goes up by 2.
\<close>

theorem growth_keeps_samples:
  assumes "pool_inv p" and "BeginSample e name p = Inr p'"
    and "SampleCapacity p \<le> SampleCount p + 2"
  shows "(\<forall>i < nat (SampleCount p). SamplePool p' ! i = SamplePool p ! i) \<and>
         SampleCount p' = SampleCount p + 2 \<and>
         SamplePool p' ! nat (SampleCount p) =
           (SamplePool p ! nat (SampleCount p))
             \<lparr>Parent := CurrentSample p, BeginNanoseconds := ElapsedNanoseconds e p,
              Name := name\<rparr> \<and>
         Name (SamplePool p' ! nat (SampleCount p + 1)) = ''SCGP.Profiler.ReallocateSamplePool''"
  using assms(2)
proof (cases rule: BeginSample_cases)
  case plain
  with assms(3) show ?thesis by simp
next
  case (grown p1)
  note o = BeginSample_open_Inr [OF grown(1)] and g = BeginSample_grow_Inr [OF grown(2)]
  from assms(1) have c: "SampleCount p < SampleCapacity p" and n: "0 \<le> SampleCount p"
    by (simp_all add: pool_inv_def)
  have old: "SamplePool p' ! i = SamplePool p ! i" if "i < nat (SampleCount p)" for i
  proof -
    from that have "int i \<le> SampleCount p" by linarith
    then have "SamplePool p' ! i = SamplePool p1 ! i"
      by (rule grown_kept [OF grown(1,2) _ c])
    also from that have "\<dots> = SamplePool p ! i" by (simp add: o(3))
    finally show ?thesis .
  qed
  have "SamplePool p' ! nat (SampleCount p) = SamplePool p1 ! nat (SampleCount p)"
    using n by (intro grown_kept [OF grown(1,2) _ c]) simp
  also have "\<dots> = (SamplePool p ! nat (SampleCount p))
             \<lparr>Parent := CurrentSample p, BeginNanoseconds := ElapsedNanoseconds e p,
              Name := name\<rparr>"
    using o(1,2) by (simp add: o(3))
  finally have new: "SamplePool p' ! nat (SampleCount p) = (SamplePool p ! nat (SampleCount p))
             \<lparr>Parent := CurrentSample p, BeginNanoseconds := ElapsedNanoseconds e p,
              Name := name\<rparr>" .
  show ?thesis
    using old by (simp add: new g(7) o(4) grown_marker [OF grown(1,2)])
qed

theorem growth_keeps_samples_witness:
  "pool_inv demo_A \<and> BeginSample demo_env ''B'' demo_A = Inr demo_AB \<and>
   SampleCapacity demo_A \<le> SampleCount demo_A + 2 \<and>
   SamplePool demo_AB ! 0 = SamplePool demo_A ! 0 \<and>
   SamplePool demo_AB ! 1 = SamplePool demo_A ! 1 \<and>
   SampleCount demo_AB = SampleCount demo_A + 2 \<and>
   SamplePool demo_AB ! 2 =
     \<lparr>Parent = 0, BeginNanoseconds = 4000, EndNanoseconds = 13, Name = ''B''\<rparr> \<and>
   Name (SamplePool demo_AB ! 3) = ''SCGP.Profiler.ReallocateSamplePool''"
proof -
  have a: "pool_inv demo_A" and c: "SampleCapacity demo_A \<le> SampleCount demo_A + 2"
    by (simp_all add: pool_inv_def demo_defs)
  from growth_keeps_samples [OF a demo_begin_B c] a c demo_begin_B show ?thesis
    by (simp add: demo_defs)
qed

section \<open>EndSample\<close>

text \<open>
  C8. In a recorder whose cursor is the sentinel or the index of a recorded sample:
  when a sample is open (\<open>CurrentSample \<noteq> -1\<close>), \<open>EndSample\<close> writes the elapsed time
  into \<open>EndNanoseconds\<close> of the sample in slot \<open>CurrentSample\<close>, sets \<open>CurrentSample\<close> to
  that sample's \<open>Parent\<close>, and changes no other slot and no other field; when no sample
  is open, the access \<open>SamplePool[-1]\<close> is outside the array. The source checks
  nothing, so the error is excluded exactly by the precondition.
\<close>

theorem EndSample_closes_current:
  assumes "cursor_inv p"
  shows "if CurrentSample p = - 1 then EndSample e p = Inl OutOfBounds
         else EndSample e p =
           Inr (p\<lparr>SamplePool := (SamplePool p)[nat (CurrentSample p) :=
                      (SamplePool p ! nat (CurrentSample p))
                        \<lparr>EndNanoseconds := ElapsedNanoseconds e p\<rparr>],
                   CurrentSample := Parent (SamplePool p ! nat (CurrentSample p)),
                   ClockReads := Suc (ClockReads p)\<rparr>)"
  using assms
  by (simp add: cursor_inv_def EndSample_def in_pool_def clock_read_def Let_def)

theorem EndSample_closes_current_witness:
  "cursor_inv demo_AB \<and> CurrentSample demo_AB = 2 \<and>
   EndSample demo_env demo_AB =
     Inr (demo_AB\<lparr>SamplePool := (SamplePool demo_AB)[2 :=
              (SamplePool demo_AB ! 2)\<lparr>EndNanoseconds := 7000\<rparr>],
            CurrentSample := 0, ClockReads := 8\<rparr>) \<and>
   cursor_inv demo_fresh \<and> CurrentSample demo_fresh = - 1 \<and>
   EndSample demo_env demo_fresh = Inl OutOfBounds"
proof -
  have a: "cursor_inv demo_AB" and b: "cursor_inv demo_fresh"
    by (simp_all add: cursor_inv_def demo_defs)
  from EndSample_closes_current [OF a, of demo_env]
    EndSample_closes_current [OF b, of demo_env] a b
  show ?thesis
    by (simp add: demo_defs ElapsedNanoseconds_def)
qed

section \<open>Two free slots\<close>

text \<open>
  C9. The pool invariant (the capacity is the size of the array and
  \<open>SampleCount + 2 \<le> SampleCapacity\<close>) holds after construction, which clamps the
  initial capacity to at least 2, and is kept by every \<open>BeginSample\<close> and \<open>EndSample\<close>
  call that returns; under it the unchecked writes of \<open>BeginSample\<close> into slots
  \<open>SampleCount\<close> and \<open>SampleCount + 1\<close> are inside the array.
\<close>

theorem two_free_slots:
  "(Profiler_ctor e initialCapacity = Inr p0 \<longrightarrow>
      pool_inv p0 \<and> SampleCapacity p0 = max 2 (sint initialCapacity)) \<and>
   (pool_inv p \<longrightarrow>
      BeginSample e name p \<noteq> Inl OutOfBounds \<and>
      (BeginSample e name p = Inr p' \<longrightarrow> pool_inv p') \<and>
      (EndSample e p = Inr p'' \<longrightarrow> pool_inv p''))"
  using pool_inv_ctor [of e initialCapacity p0] Profiler_ctor_Inr(3) [of e initialCapacity p0]
    pool_inv_in_bounds [of p e name] pool_inv_BeginSample [of p e name p']
    pool_inv_EndSample [of p e p'']
  by blast

theorem two_free_slots_witness:
  "Profiler_ctor demo_env 2 = Inr demo_fresh \<and> pool_inv demo_fresh \<and>
   SampleCapacity demo_fresh = max 2 (sint (2 :: 32 word)) \<and>
   pool_inv demo_A \<and> BeginSample demo_env ''B'' demo_A = Inr demo_AB \<and> pool_inv demo_AB \<and>
   EndSample demo_env demo_AB = Inr demo_ABe \<and> pool_inv demo_ABe \<and>
   SampleCount demo_AB + 2 \<le> SampleCapacity demo_AB"
proof -
  have a: "pool_inv demo_AB"
    using two_free_slots [of demo_env 2 demo_fresh demo_A "''B''" demo_AB demo_A]
    by (simp add: demo_begin_B) (simp add: pool_inv_def demo_defs)
  then show ?thesis
    by (simp add: demo_ctor demo_begin_B demo_end_B) (simp add: pool_inv_def demo_defs)
qed

section \<open>Growth and the open sample\<close>

text \<open>
  C10. The growth block of \<open>BeginSample\<close> (lines 93-106) leaves \<open>CurrentSample\<close> as it
  is and writes both \<open>BeginNanoseconds\<close> and \<open>EndNanoseconds\<close> of the marker sample, the
  second and third clock readings of the call. So after any \<open>BeginSample\<close> call that
  returns, grown or not, the open sample is the one the call opened, in slot
  \<open>SampleCount\<close> of the state before; the marker, in the slot after it, is never the
  current sample, and no \<open>EndSample\<close> call is owed to it.
\<close>

theorem growth_keeps_current:
  "(BeginSample_grow e q = Inr q' \<longrightarrow>
      CurrentSample q' = CurrentSample q \<and>
      SampleCount q' = SampleCount q + 1 \<and>
      BeginNanoseconds (SamplePool q' ! nat (SampleCount q)) = ElapsedNanoseconds e q \<and>
      EndNanoseconds (SamplePool q' ! nat (SampleCount q)) =
        ElapsedNanoseconds e (clock_read q)) \<and>
   (BeginSample e name p = Inr p' \<longrightarrow>
      CurrentSample p' = SampleCount p \<and>
      (SampleCapacity p \<le> SampleCount p + 2 \<longrightarrow>
         CurrentSample p' \<noteq> SampleCount p + 1 \<and>
         BeginNanoseconds (SamplePool p' ! nat (SampleCount p + 1)) =
           ElapsedNanoseconds e (clock_read p) \<and>
         EndNanoseconds (SamplePool p' ! nat (SampleCount p + 1)) =
           ElapsedNanoseconds e (clock_read (clock_read p))))"
proof (intro conjI impI)
  assume g: "BeginSample_grow e q = Inr q'"
  note g' = BeginSample_grow_Inr [OF g]
  have in_new: "nat (SampleCount q) < length (SamplePool q')"
    using g'(1,2) BeginSample_grow_length [OF g] by linarith
  show "CurrentSample q' = CurrentSample q" by (rule g'(8))
  show "SampleCount q' = SampleCount q + 1" by (rule g'(7))
  from in_new
  show "BeginNanoseconds (SamplePool q' ! nat (SampleCount q)) = ElapsedNanoseconds e q"
    unfolding g'(6) by simp
  from in_new
  show "EndNanoseconds (SamplePool q' ! nat (SampleCount q)) =
      ElapsedNanoseconds e (clock_read q)"
    unfolding g'(6) by simp
next
  assume b: "BeginSample e name p = Inr p'"
  then show "CurrentSample p' = SampleCount p"
  proof (cases rule: BeginSample_cases)
    case plain
    then show ?thesis by (simp add: BeginSample_open_Inr(5))
  next
    case (grown p1)
    then show ?thesis by (simp add: BeginSample_grow_Inr(8) BeginSample_open_Inr(5))
  qed
  then show "CurrentSample p' \<noteq> SampleCount p + 1" by simp
  assume c: "SampleCapacity p \<le> SampleCount p + 2"
  from b have m: "SamplePool p' ! nat (SampleCount p + 1) =
           \<lparr>Parent = SampleCount p,
            BeginNanoseconds = ElapsedNanoseconds e (clock_read p),
            EndNanoseconds = ElapsedNanoseconds e (clock_read (clock_read p)),
            Name = ''SCGP.Profiler.ReallocateSamplePool''\<rparr>"
  proof (cases rule: BeginSample_cases)
    case plain
    with c show ?thesis by simp
  next
    case (grown p1)
    then show ?thesis by (simp add: grown_marker)
  qed
  show "BeginNanoseconds (SamplePool p' ! nat (SampleCount p + 1)) =
      ElapsedNanoseconds e (clock_read p)"
    by (simp add: m)
  show "EndNanoseconds (SamplePool p' ! nat (SampleCount p + 1)) =
      ElapsedNanoseconds e (clock_read (clock_read p))"
    by (simp add: m)
qed

theorem growth_keeps_current_witness:
  "BeginSample_grow demo_env demo_A_B_open = Inr demo_AB \<and>
   CurrentSample demo_A_B_open = 2 \<and> CurrentSample demo_AB = 2 \<and>
   SampleCount demo_AB = SampleCount demo_A_B_open + 1 \<and>
   BeginNanoseconds (SamplePool demo_AB ! 3) = 5000 \<and>
   EndNanoseconds (SamplePool demo_AB ! 3) = 6000 \<and>
   BeginSample demo_env ''B'' demo_A = Inr demo_AB \<and>
   SampleCapacity demo_A \<le> SampleCount demo_A + 2 \<and>
   CurrentSample demo_AB = SampleCount demo_A \<and>
   CurrentSample demo_AB \<noteq> SampleCount demo_A + 1"
proof -
  have c: "SampleCapacity demo_A \<le> SampleCount demo_A + 2"
    by (simp add: demo_defs)
  from growth_keeps_current [of demo_env demo_A_B_open demo_AB "''B''" demo_A demo_AB]
    demo_grow_B demo_begin_B c
  show ?thesis
    by (simp add: demo_defs ElapsedNanoseconds_def clock_read_def)
qed

section \<open>Sessions\<close>

text \<open>Appending one slot keeps the chain invariant, whichever of the two writes of
  \<open>BeginSample\<close> appended it.\<close>

lemma chain_inv_extend:
  assumes inv: "chain_inv p d ds"
    and cnt: "0 \<le> SampleCount p" "SampleCount p' = SampleCount p + 1"
    and cur: "- 1 \<le> CurrentSample p" "CurrentSample p < SampleCount p"
    and old: "\<And>i. i < nat (SampleCount p) \<Longrightarrow>
                Parent (SamplePool p' ! i) = Parent (SamplePool p ! i)"
    and new: "Parent (SamplePool p' ! nat (SampleCount p)) = CurrentSample p"
    and d': "d' = (if CurrentSample p' = - 1 then 0
                   else Suc ((ds @ [d]) ! nat (CurrentSample p')))"
  shows "chain_inv p' d' (ds @ [d])"
proof -
  from inv have len: "length ds = nat (SampleCount p)"
    and links: "\<And>i. i < length ds \<Longrightarrow>
        - 1 \<le> Parent (SamplePool p ! i) \<and> Parent (SamplePool p ! i) < int i \<and>
        ds ! i = (if Parent (SamplePool p ! i) = - 1 then 0
                  else Suc (ds ! nat (Parent (SamplePool p ! i))))"
    and dd: "d = (if CurrentSample p = - 1 then 0 else Suc (ds ! nat (CurrentSample p)))"
    by (simp_all add: chain_inv_def)
  have len': "length (ds @ [d]) = nat (SampleCount p')"
    using len cnt by (simp add: nat_add_distrib)
  have step: "- 1 \<le> Parent (SamplePool p' ! i) \<and> Parent (SamplePool p' ! i) < int i \<and>
        (ds @ [d]) ! i = (if Parent (SamplePool p' ! i) = - 1 then 0
                  else Suc ((ds @ [d]) ! nat (Parent (SamplePool p' ! i))))"
    if i: "i < length (ds @ [d])" for i
  proof (cases "i < length ds")
    case True
    then have par: "Parent (SamplePool p' ! i) = Parent (SamplePool p ! i)"
      using old len by simp
    note l = links [OF True]
    have "nat (Parent (SamplePool p ! i)) < length ds" if "Parent (SamplePool p ! i) \<noteq> - 1"
      using l True that by linarith
    then show ?thesis
      using l True by (simp add: par nth_append)
  next
    case False
    with i have i: "i = length ds" by simp
    have "nat (CurrentSample p) < length ds" if "CurrentSample p \<noteq> - 1"
      using cur len that by linarith
    then show ?thesis
      using cur cnt(1) dd by (simp add: i len new nth_append)
  qed
  show ?thesis
    unfolding chain_inv_def using len' step d' by blast
qed

lemma session_inv_open:
  assumes "pool_inv p" and "cursor_inv p" and "chain_inv p d ds"
    and o: "BeginSample_open e name p = Inr p1"
  shows "cursor_inv p1" and "chain_inv p1 (Suc d) (ds @ [d])"
proof -
  note o' = BeginSample_open_Inr [OF o]
  from assms(2) o'(2) show "cursor_inv p1"
    by (simp add: cursor_inv_def o'(3,4,5))
  from assms(3) have len: "length ds = nat (SampleCount p)"
    by (simp add: chain_inv_def)
  show "chain_inv p1 (Suc d) (ds @ [d])"
  proof (rule chain_inv_extend [OF assms(3)])
    show "0 \<le> SampleCount p" by (rule o'(1))
    show "SampleCount p1 = SampleCount p + 1" by (rule o'(4))
    from assms(2) show "- 1 \<le> CurrentSample p" "CurrentSample p < SampleCount p"
      by (simp_all add: cursor_inv_def)
    show "Parent (SamplePool p1 ! i) = Parent (SamplePool p ! i)" if "i < nat (SampleCount p)" for i
      using that by (simp add: o'(3))
    show "Parent (SamplePool p1 ! nat (SampleCount p)) = CurrentSample p"
      using o'(1,2) by (simp add: o'(3))
    show "Suc d = (if CurrentSample p1 = - 1 then 0
                   else Suc ((ds @ [d]) ! nat (CurrentSample p1)))"
      using o'(1) by (simp add: o'(5) len [symmetric])
  qed
qed

lemma session_inv_grow:
  assumes c: "cursor_inv q" and ch: "chain_inv q d ds"
    and open_cur: "0 \<le> CurrentSample q" and cap: "SampleCount q \<le> SampleCapacity q"
    and g: "BeginSample_grow e q = Inr q'"
  shows "cursor_inv q'" and "chain_inv q' d (ds @ [d])"
proof -
  note g' = BeginSample_grow_Inr [OF g]
  have len': "int (length (SamplePool q')) = 2 * SampleCapacity q"
    by (rule BeginSample_grow_length [OF g])
  from c g'(2) show "cursor_inv q'"
    by (simp add: cursor_inv_def g'(7,8) len')
  from c have cur: "- 1 \<le> CurrentSample q" "CurrentSample q < SampleCount q"
    by (simp_all add: cursor_inv_def)
  from ch have len: "length ds = nat (SampleCount q)"
    and dd: "d = (if CurrentSample q = - 1 then 0 else Suc (ds ! nat (CurrentSample q)))"
    by (simp_all add: chain_inv_def)
  have in_new: "nat (SampleCount q) < length (SamplePool q')"
    using g'(1,2) len' by linarith
  show "chain_inv q' d (ds @ [d])"
  proof (rule chain_inv_extend [OF ch])
    show "0 \<le> SampleCount q" by (rule g'(1))
    show "SampleCount q' = SampleCount q + 1" by (rule g'(7))
    show "- 1 \<le> CurrentSample q" "CurrentSample q < SampleCount q" by (rule cur)+
    show "Parent (SamplePool q' ! i) = Parent (SamplePool q ! i)" if "i < nat (SampleCount q)" for i
    proof -
      from that cap g'(4) have "i < nat (SampleCapacity q)" "i < length (SamplePool q)"
        by linarith+
      with that show ?thesis unfolding g'(6) by (simp add: nth_append)
    qed
    show "Parent (SamplePool q' ! nat (SampleCount q)) = CurrentSample q"
      using in_new unfolding g'(6) by simp
    have "nat (CurrentSample q) < length ds" using cur open_cur len by linarith
    then show "d = (if CurrentSample q' = - 1 then 0
                   else Suc ((ds @ [d]) ! nat (CurrentSample q')))"
      using open_cur dd by (simp add: g'(8) nth_append)
  qed
qed

lemma session_inv_EndSample:
  assumes c: "cursor_inv p" and ch: "chain_inv p d ds" and e: "EndSample e p = Inr p'"
  shows "cursor_inv p'" and "chain_inv p' (d - 1) ds" and "0 < d"
proof -
  note e' = EndSample_Inr [OF e]
  from c have cur: "CurrentSample p < SampleCount p"
    and cnt: "SampleCount p \<le> int (length (SamplePool p))"
    by (simp_all add: cursor_inv_def)
  from ch have len: "length ds = nat (SampleCount p)"
    and links: "\<And>i. i < length ds \<Longrightarrow>
        - 1 \<le> Parent (SamplePool p ! i) \<and> Parent (SamplePool p ! i) < int i \<and>
        ds ! i = (if Parent (SamplePool p ! i) = - 1 then 0
                  else Suc (ds ! nat (Parent (SamplePool p ! i))))"
    and dd: "d = (if CurrentSample p = - 1 then 0 else Suc (ds ! nat (CurrentSample p)))"
    by (simp_all add: chain_inv_def)
  have k: "nat (CurrentSample p) < length ds" using e'(1) cur len by linarith
  note lk = links [OF k]
  have par: "Parent (SamplePool p' ! i) = Parent (SamplePool p ! i)" if "i < length ds" for i
  proof -
    from that len cnt have "i < length (SamplePool p)" by linarith
    then show ?thesis
      by (cases "i = nat (CurrentSample p)") (simp_all add: e'(3))
  qed
  from e'(1) dd show "0 < d" by simp
  from lk e'(1) cur cnt show "cursor_inv p'"
    by (simp add: cursor_inv_def e'(3,4,5))
  have "d - 1 = ds ! nat (CurrentSample p)" using e'(1) dd by simp
  with lk have "d - 1 = (if CurrentSample p' = - 1 then 0 else Suc (ds ! nat (CurrentSample p')))"
    by (simp add: e'(5))
  with len links show "chain_inv p' (d - 1) ds"
    unfolding chain_inv_def by (simp add: par e'(4))
qed

lemma session_inv_step:
  assumes "session_inv s" and "step_logged e c s = Inr s'"
  shows "session_inv s'"
proof -
  obtain p d log where s: "s = (p, d, log)" by (cases s)
  from assms(1) have pi: "pool_inv p" and ci: "cursor_inv p"
    and ch: "chain_inv p d (map links log)"
    by (simp_all add: session_inv_def s)
  show ?thesis
  proof (cases c)
    case End
    with assms(2) obtain p' where e: "EndSample e p = Inr p'" and s': "s' = (p', d - 1, log)"
      by (auto simp: s split: sum.splits)
    from pool_inv_EndSample [OF pi e] session_inv_EndSample(1,2) [OF ci ch e]
    show ?thesis by (simp add: session_inv_def s')
  next
    case (Begin name)
    with assms(2) obtain p' where b: "BeginSample e name p = Inr p'"
      and s': "s' = (p', Suc d,
                 log @ (if SampleCount p' = SampleCount p + 2 then [(d, False), (d, True)]
                        else [(d, False)]))"
      by (auto simp: s split: sum.splits)
    note pi' = pool_inv_BeginSample [OF pi b]
    from b show ?thesis
    proof (cases rule: BeginSample_cases)
      case plain
      note o' = BeginSample_open_Inr [OF plain(1)]
      from session_inv_open [OF pi ci ch plain(1)] pi' show ?thesis
        by (simp add: session_inv_def s' o'(4) links_def)
    next
      case (grown p1)
      note o' = BeginSample_open_Inr [OF grown(1)] and g' = BeginSample_grow_Inr [OF grown(2)]
      note i1 = session_inv_open [OF pi ci ch grown(1)]
      from pi have "SampleCount p1 \<le> SampleCapacity p1"
        by (simp add: pool_inv_def o')
      from session_inv_grow [OF i1 _ this grown(2)] o'(1) pi' show ?thesis
        by (simp add: session_inv_def s' o'(4,5) g'(7) links_def)
    qed
  qed
qed

lemma session_inv_run:
  "session_inv s \<Longrightarrow> run_logged e cs s = Inr s' \<Longrightarrow> session_inv s'"
proof (induction cs arbitrary: s)
  case Nil
  then show ?case by simp
next
  case (Cons c cs)
  from Cons.prems(2) obtain s1 where 1: "step_logged e c s = Inr s1"
    and 2: "run_logged e cs s1 = Inr s'"
    by (auto split: sum.splits)
  from Cons.IH [OF session_inv_step [OF Cons.prems(1) 1] 2] show ?case .
qed

lemma session_inv_ctor:
  "Profiler_ctor e initialCapacity = Inr p \<Longrightarrow> session_inv (p, 0, [])"
  by (simp add: session_inv_def pool_inv_ctor cursor_inv_def chain_inv_def Profiler_ctor_Inr)


lemma step_logged_step:
  "map_sum id fst (step_logged e c (p, d, log)) = step e c p"
  by (cases c) (simp_all split: sum.splits)

lemma run_logged_run:
  "map_sum id fst (run_logged e cs (p, d, ds)) = run e cs p"
proof (induction cs arbitrary: p d ds)
  case Nil
  show ?case by simp
next
  case (Cons c cs)
  show ?case
  proof (cases "step_logged e c (p, d, ds)")
    case (Inl err)
    with step_logged_step [of e c p d ds] have "step e c p = Inl err" by simp
    with Inl show ?thesis by simp
  next
    case (Inr s1)
    obtain p1 d1 ds1 where s1: "s1 = (p1, d1, ds1)" by (cases s1)
    from Inr step_logged_step [of e c p d ds] have "step e c p = Inr p1"
      by (simp add: s1)
    with Inr Cons.IH [of p1 d1 ds1] show ?thesis by (simp add: s1)
  qed
qed

lemma run_logged_of_run:
  assumes "run e cs p = Inr p'"
  obtains d' ds' where "run_logged e cs (p, d, ds) = Inr (p', d', ds')"
proof (cases "run_logged e cs (p, d, ds)")
  case (Inl err)
  with run_logged_run [of e cs p d ds] assms show ?thesis by simp
next
  case (Inr s')
  with run_logged_run [of e cs p d ds] assms have "fst s' = p'" by simp
  with Inr that [of "fst (snd s')" "snd (snd s')"] show ?thesis by (cases s') simp
qed

lemma well_nested_depth:
  "well_nested d cs \<Longrightarrow> run_logged e cs (p, d, ds) = Inr (p', d', ds') \<Longrightarrow> d' = 0"
proof (induction d cs arbitrary: p ds rule: well_nested.induct)
  case (1 d)
  then show ?case by simp
next
  case (2 d name cs)
  from "2.prems"(2) obtain p1 ds1 where "run_logged e cs (p1, Suc d, ds1) = Inr (p', d', ds')"
    by (auto split: sum.splits if_splits)
  with "2.prems"(1) show ?case by (intro "2.IH") simp_all
next
  case (3 d cs)
  from "3.prems"(2) obtain p1 where "run_logged e cs (p1, d - 1, ds) = Inr (p', d', ds')"
    by (auto split: sum.splits)
  with "3.prems"(1) show ?case by (intro "3.IH") simp_all
qed

lemma EndSample_open_returns:
  assumes "cursor_inv p" and "CurrentSample p \<noteq> - 1"
  obtains p' where "EndSample e p = Inr p'"
  using assms
  by (simp add: cursor_inv_def EndSample_def in_pool_def Let_def)

lemma step_logged_error:
  "step_logged e c (p, d, ds) = Inl err \<Longrightarrow> step e c p = Inl err"
  using step_logged_step [of e c p d ds] by simp

lemma well_nested_in_bounds:
  "session_inv (p, d, ds) \<Longrightarrow> well_nested d cs \<Longrightarrow>
   run_logged e cs (p, d, ds) \<noteq> Inl OutOfBounds"
proof (induction d cs arbitrary: p ds rule: well_nested.induct)
  case (1 d)
  show ?case by simp
next
  case (2 d name cs)
  from "2.prems"(1) have pi: "pool_inv p" by (simp add: session_inv_def)
  show ?case
  proof (cases "step_logged e (Begin name) (p, d, ds)")
    case (Inl err)
    from step_logged_error [OF Inl] pool_inv_in_bounds [OF pi, of e name]
    have "err \<noteq> OutOfBounds" by auto
    with Inl show ?thesis by simp
  next
    case (Inr s1)
    then obtain p1 ds1 where s1: "s1 = (p1, Suc d, ds1)"
      by (auto split: sum.splits if_splits)
    from session_inv_step [OF "2.prems"(1) Inr] "2.prems"(2)
    have "run_logged e cs (p1, Suc d, ds1) \<noteq> Inl OutOfBounds"
      unfolding s1 by (intro "2.IH") simp_all
    with Inr s1 show ?thesis by simp
  qed
next
  case (3 d cs)
  from "3.prems"(1) have ci: "cursor_inv p" and ch: "chain_inv p d (map links ds)"
    by (simp_all add: session_inv_def)
  from "3.prems"(2) ch have "CurrentSample p \<noteq> - 1"
    by (auto simp: chain_inv_def)
  with ci obtain p' where e: "EndSample e p = Inr p'"
    by (rule EndSample_open_returns)
  then have s: "step_logged e End (p, d, ds) = Inr (p', d - 1, ds)" by simp
  from session_inv_step [OF "3.prems"(1) s] "3.prems"(2)
  have "run_logged e cs (p', d - 1, ds) \<noteq> Inl OutOfBounds"
    by (intro "3.IH") simp_all
  with e show ?case by simp
qed

lemma run_error:
  "run e cs p = Inl err \<Longrightarrow> run_logged e cs (p, d, ds) = Inl err"
  using run_logged_run [of e cs p d ds] by (cases "run_logged e cs (p, d, ds)") simp_all

section \<open>Balance\<close>

text \<open>
  C2. For every well-nested sequence of \<open>BeginSample\<close> and \<open>EndSample\<close> calls on a
  freshly constructed recorder, when the last call has returned, \<open>CurrentSample\<close> is
  the sentinel \<open>-1\<close>. Such a session never reads or writes outside the pool; it fails
  only where \<open>new\<close> fails or 64-bit arithmetic overflows.
\<close>

theorem balance:
  assumes "Profiler_ctor e initialCapacity = Inr p0" and "well_nested 0 calls"
  shows "case run e calls p0 of
           Inl err \<Rightarrow> err \<noteq> OutOfBounds
         | Inr p \<Rightarrow> CurrentSample p = - 1"
proof (cases "run e calls p0")
  case (Inl err)
  from well_nested_in_bounds [OF session_inv_ctor [OF assms(1)] assms(2), of e]
    run_error [OF Inl, of 0 "[]"]
  have "err \<noteq> OutOfBounds" by auto
  with Inl show ?thesis by simp
next
  case (Inr p)
  then obtain d ds where r: "run_logged e calls (p0, 0, []) = Inr (p, d, ds)"
    by (rule run_logged_of_run)
  from well_nested_depth [OF assms(2) r] have "d = 0" .
  moreover from session_inv_run [OF session_inv_ctor [OF assms(1)] r]
  have "chain_inv p d (map links ds)" by (simp add: session_inv_def)
  ultimately have "CurrentSample p = - 1"
    by (simp add: chain_inv_def split: if_splits)
  with Inr show ?thesis by simp
qed

theorem balance_witness:
  "Profiler_ctor demo_env 2 = Inr demo_fresh \<and>
   well_nested 0 [Begin ''A'', Begin ''B'', End, End] \<and>
   run demo_env [Begin ''A'', Begin ''B'', End, End] demo_fresh = Inr demo_done \<and>
   CurrentSample demo_done = - 1"
proof -
  have w: "well_nested 0 [Begin ''A'', Begin ''B'', End, End]" by simp
  from balance [OF demo_ctor w] demo_ctor w demo_run show ?thesis by simp
qed

section \<open>Parent chains\<close>

lemma steps_to_top_depth:
  assumes ch: "chain_inv p d ds" and cnt: "SampleCount p \<le> int (length (SamplePool p))"
  shows "i < length ds \<Longrightarrow> i < fuel \<Longrightarrow>
         steps_to_top fuel (SamplePool p) (int i) = Some (ds ! i)"
proof (induction i arbitrary: fuel rule: less_induct)
  case (less i)
  from ch have len: "length ds = nat (SampleCount p)"
    and links: "\<And>i. i < length ds \<Longrightarrow>
        - 1 \<le> Parent (SamplePool p ! i) \<and> Parent (SamplePool p ! i) < int i \<and>
        ds ! i = (if Parent (SamplePool p ! i) = - 1 then 0
                  else Suc (ds ! nat (Parent (SamplePool p ! i))))"
    by (simp_all add: chain_inv_def)
  note l = links [OF less.prems(1)]
  from less.prems(2) obtain f where fuel: "fuel = Suc f" by (cases fuel) simp_all
  from less.prems(1) len cnt have inb: "int i < int (length (SamplePool p))" by linarith
  show ?case
  proof (cases "Parent (SamplePool p ! i) = - 1")
    case True
    with l inb show ?thesis by (simp add: fuel)
  next
    case False
    let ?j = "nat (Parent (SamplePool p ! i))"
    from False l have j: "?j < i" "int ?j = Parent (SamplePool p ! i)" by linarith+
    from j(1) less.prems fuel have "steps_to_top f (SamplePool p) (int ?j) = Some (ds ! ?j)"
      by (intro less.IH) simp_all
    with False l inb show ?thesis by (simp add: fuel j(2))
  qed
qed

lemma creation_log_run:
  assumes "Profiler_ctor e initialCapacity = Inr p0" and "run e calls p0 = Inr p"
  shows "length (creation_log e calls p0) = nat (SampleCount p)"
    and "i < nat (SampleCount p) \<Longrightarrow> i < fuel \<Longrightarrow>
         steps_to_top fuel (SamplePool p) (int i) = Some (links (creation_log e calls p0 ! i))"
proof -
  from assms(2) obtain d log where r: "run_logged e calls (p0, 0, []) = Inr (p, d, log)"
    by (rule run_logged_of_run)
  then have log: "creation_log e calls p0 = log"
    by (simp add: creation_log_def)
  from session_inv_run [OF session_inv_ctor [OF assms(1)] r]
  have ch: "chain_inv p d (map links log)"
    and cnt: "SampleCount p \<le> int (length (SamplePool p))"
    by (simp_all add: session_inv_def cursor_inv_def)
  from ch have len: "length log = nat (SampleCount p)" by (simp add: chain_inv_def)
  then show "length (creation_log e calls p0) = nat (SampleCount p)" by (simp add: log)
  show "steps_to_top fuel (SamplePool p) (int i) = Some (links (creation_log e calls p0 ! i))"
    if "i < nat (SampleCount p)" and "i < fuel"
    using steps_to_top_depth [OF ch cnt, of i fuel] that len by (simp add: log)
qed

text \<open>
  C3. The claim: for every recorded sample, following \<open>Parent\<close> links ends at a
  top-level sample, whose parent is the sentinel \<open>-1\<close>, after as many links as the
  sample's nesting depth at the moment it was created.

  It fails for growth markers. The spec places a marker at the nesting depth of the
  sample that triggered it, and the code makes it that sample's child (lines 89 and
  103). In the session of capacity 2, the first \<open>BeginSample("A")\<close> is made with no
  sample open: the marker in slot 1 is created at depth 0 and its chain has one link.
\<close>

theorem parent_chain_depth_counterexample:
  "Profiler_ctor demo_env 2 = Inr demo_fresh \<and>
   run demo_env demo_calls demo_fresh = Inr demo_done \<and>
   creation_log demo_env demo_calls demo_fresh ! 1 = (0, True) \<and>
   Name (SamplePool demo_done ! 1) = ''SCGP.Profiler.ReallocateSamplePool'' \<and>
   steps_to_top 4 (SamplePool demo_done) 1 = Some 1 \<and>
   steps_to_top 4 (SamplePool demo_done) 1 \<noteq>
     Some (fst (creation_log demo_env demo_calls demo_fresh ! 1))"
  by (simp add: demo_ctor demo_run_calls demo_creation_log demo_steps) (simp add: demo_defs)

text \<open>
  C3, as the code has it: after any sequence of \<open>BeginSample\<close> and \<open>EndSample\<close> calls
  that returns on a freshly constructed recorder, following \<open>Parent\<close> links from any
  recorded sample ends at a sample whose parent is the sentinel \<open>-1\<close>; the number of
  links is the sample's nesting depth at creation for a sample that a \<open>BeginSample\<close>
  call opened, and one more than that for a growth marker. Any fuel above the slot
  index is enough, and the log has one entry per recorded sample.
\<close>

theorem parent_chain_depth:
  assumes "Profiler_ctor e initialCapacity = Inr p0" and "run e calls p0 = Inr p"
    and "i < nat (SampleCount p)" and "i < fuel"
  shows "length (creation_log e calls p0) = nat (SampleCount p) \<and>
         steps_to_top fuel (SamplePool p) (int i) =
           Some (if snd (creation_log e calls p0 ! i)
                 then fst (creation_log e calls p0 ! i) + 1
                 else fst (creation_log e calls p0 ! i))"
  using creation_log_run [OF assms(1,2)] assms(3,4) by (simp add: links_def)

theorem parent_chain_depth_witness:
  "Profiler_ctor demo_env 2 = Inr demo_fresh \<and>
   run demo_env demo_calls demo_fresh = Inr demo_done \<and>
   SampleCount demo_done = 4 \<and>
   creation_log demo_env demo_calls demo_fresh = [(0, False), (0, True), (1, False), (1, True)] \<and>
   steps_to_top 4 (SamplePool demo_done) 2 = Some 1 \<and>
   steps_to_top 4 (SamplePool demo_done) 3 = Some 2 \<and>
   Parent (SamplePool demo_done ! 3) = 2 \<and>
   Parent (SamplePool demo_done ! 2) = 0 \<and>
   Parent (SamplePool demo_done ! 0) = - 1"
proof -
  have c: "(2::nat) < nat (SampleCount demo_done)" "(3::nat) < nat (SampleCount demo_done)"
    "(2::nat) < 4" "(3::nat) < 4"
    by (simp_all add: demo_defs)
  from parent_chain_depth [OF demo_ctor demo_run_calls c(1,3)]
    parent_chain_depth [OF demo_ctor demo_run_calls c(2,4)]
    demo_ctor demo_run_calls
  show ?thesis by (simp add: demo_creation_log demo_steps) (simp add: demo_defs)
qed

section \<open>Export\<close>


lemma loop_overflow:
  assumes "0 \<le> i" and "i \<le> INT_MAX" and "INT_MAX < SampleCount p"
    and "SampleCount p \<le> int (length (SamplePool p))"
  shows "ToChromeTracingEvents_loop fmt p i appendTo = Inl SignedOverflow"
  using assms
proof (induction fmt p i appendTo rule: ToChromeTracingEvents_loop.induct)
  case (1 fmt p i appendTo)
  from "1.prems" have lt: "i < SampleCount p" and inp: "in_pool p i"
    by (simp_all add: in_pool_def)
  show ?case
  proof (cases "INT_MAX < i + 1")
    case True
    with lt inp show ?thesis
      by (simp add: ToChromeTracingEvents_loop.simps [of fmt p i])
  next
    case False
    have "ToChromeTracingEvents_loop fmt p (i + 1) (appendTo @ [event_of fmt (SamplePool p ! nat i)]) =
        Inl SignedOverflow"
      using lt inp False "1.prems" by (intro "1.IH") simp_all
    with lt inp False show ?thesis
      by (simp add: ToChromeTracingEvents_loop.simps [of fmt p i])
  qed
qed






text \<open>Beyond \<open>INT_MAX\<close> samples the counter overflows, and every session with \<open>2^31\<close>
  \<open>BeginSample\<close> calls records that many.\<close>

lemma export_overflow:
  assumes "pool_inv p" and "INT_MAX < SampleCount p"
  shows "ToChromeTracingEvents fmt p = Inl SignedOverflow"
proof -
  from assms(1) have "SampleCount p \<le> int (length (SamplePool p))"
    by (simp add: pool_inv_def)
  with assms(2) have "ToChromeTracingEvents_loop fmt p 0 [] = Inl SignedOverflow"
    by (intro loop_overflow) (simp_all add: INT_MAX_def)
  then show ?thesis
    by (simp add: ToChromeTracingEvents_def ToChromeTracingEvents_append_def)
qed

lemma BeginSample_count:
  assumes "BeginSample e name p = Inr p'"
  shows "SampleCount p + 1 \<le> SampleCount p'"
  using assms
proof (cases rule: BeginSample_cases)
  case plain
  then show ?thesis by (simp add: BeginSample_open_Inr(4))
next
  case (grown p1)
  then show ?thesis by (simp add: BeginSample_open_Inr(4) BeginSample_grow_Inr(7))
qed

lemma run_count:
  "run e cs p = Inr p' \<Longrightarrow> SampleCount p + int (begins cs) \<le> SampleCount p'"
proof (induction cs arbitrary: p)
  case Nil
  then show ?case by simp
next
  case (Cons c cs)
  from Cons.prems obtain p1 where 1: "step e c p = Inr p1" and 2: "run e cs p1 = Inr p'"
    by (auto split: sum.splits)
  note ih = Cons.IH [OF 2]
  show ?case
  proof (cases c)
    case (Begin name)
    with 1 have "SampleCount p + 1 \<le> SampleCount p1" by (simp add: BeginSample_count)
    with ih Begin show ?thesis by simp
  next
    case End
    with 1 have "SampleCount p1 = SampleCount p" by (simp add: EndSample_Inr(4))
    with ih End show ?thesis by simp
  qed
qed

lemma pool_inv_run:
  assumes "Profiler_ctor e initialCapacity = Inr p0" and "run e cs p0 = Inr p"
  shows "pool_inv p"
proof -
  from assms(2) obtain d ds where r: "run_logged e cs (p0, 0, []) = Inr (p, d, ds)"
    by (rule run_logged_of_run)
  from session_inv_run [OF session_inv_ctor [OF assms(1)] r] show ?thesis
    by (simp add: session_inv_def)
qed

lemma export_after_long_session:
  assumes "Profiler_ctor e initialCapacity = Inr p0" and "run e cs p0 = Inr p"
    and "2 ^ 31 \<le> begins cs"
  shows "ToChromeTracingEvents fmt p = Inl SignedOverflow"
proof -
  from run_count [OF assms(2)] Profiler_ctor_Inr(1) [OF assms(1)]
  have "int (begins cs) \<le> SampleCount p" by simp
  moreover from assms(3) have "(2 :: int) ^ 31 \<le> int (begins cs)"
    by (metis of_nat_le_iff of_nat_numeral of_nat_power)
  ultimately have "INT_MAX < SampleCount p" by (simp add: INT_MAX_def)
  with pool_inv_run [OF assms(1,2)] show ?thesis by (rule export_overflow)
qed

text \<open>
  C6. The claim: for every recorder state, \<open>ToChromeTracingEvents\<close> emits exactly
  \<open>SampleCount\<close> event strings, one per recorded sample, in pool order, and the variant
  that returns a fresh vector gives what the append variant gives on an empty vector.

  The code misses it for large recorders. The loop counter of line 192 is an \<open>int\<close>,
  the count a \<open>std::int64_t\<close>: in a recorder that holds \<open>2^31\<close> samples the counter
  reaches \<open>INT_MAX\<close> below the count and the next \<open>i++\<close> overflows, so no list of
  \<open>2^31\<close> events is produced.
\<close>

theorem export_overflows_at_2_31:
  "pool_inv demo_huge \<and> cursor_inv demo_huge \<and> SampleCount demo_huge = 2147483648 \<and>
   ToChromeTracingEvents demo_fmt demo_huge = Inl SignedOverflow"
proof -
  have f: "SampleCount demo_huge = 2 ^ 31" "SamplePool demo_huge = replicate (2 ^ 32) demo_top"
    "SampleCapacity demo_huge = 2 ^ 32" "CurrentSample demo_huge = - 1"
    by (simp_all add: demo_huge_def)
  have inv: "pool_inv demo_huge" "cursor_inv demo_huge"
    unfolding pool_inv_def cursor_inv_def f by simp_all
  have "ToChromeTracingEvents_loop demo_fmt demo_huge 0 [] = Inl SignedOverflow"
    by (rule loop_overflow) (simp_all add: f INT_MAX_def)
  with inv f(1) show ?thesis
    by (simp add: ToChromeTracingEvents_def ToChromeTracingEvents_append_def)
qed

end
